theory Spec2Isabelle
  imports Main "HOL-Library.Word"
begin

unbundle bit_operations_syntax

section \<open>JavaScript strings and numbers\<close>

text \<open>
  A JavaScript string is a sequence of UTF-16 code units: \<open>split('')\<close> cuts a string
  into its code units, \<open>charCodeAt(0)\<close> reads one as a number below 65536 and
  \<open>String.fromCharCode\<close> takes its argument modulo 65536. A code unit is a 16-bit
  word, a string is a list of them. \<open>str\<close> writes a literal of the source.
\<close>

type_synonym jschar = "16 word"
type_synonym jsstring = "jschar list"

definition chr :: "char \<Rightarrow> jschar" where
  "chr c = of_nat (of_char c)"

definition str :: "string \<Rightarrow> jsstring" where
  "str s = map chr s"

definition charCodeAt0 :: "jschar \<Rightarrow> int" where
  "charCodeAt0 c = uint c"

definition fromCharCode :: "int \<Rightarrow> jschar" where
  "fromCharCode n = word_of_int n"

text \<open>
  \<open>toUpperCase\<close> on the Basic Latin range: \<open>a\<close> to \<open>z\<close> go to \<open>A\<close> to \<open>Z\<close>, every
  other code unit stays. (The case mapping of the letters outside Basic Latin is not part
  of this development.)
\<close>

definition toUpperChar :: "jschar \<Rightarrow> jschar" where
  "toUpperChar c = (if 97 \<le> c \<and> c \<le> 122 then c - 32 else c)"

definition toUpperCase :: "jsstring \<Rightarrow> jsstring" where
  "toUpperCase s = map toUpperChar s"

text \<open>
  The white space and line terminators that \<open>trim\<close> and \<open>parseInt\<close> strip: TAB, LF,
  VT, FF, CR, SP, NBSP, U+1680, U+2000 to U+200A, U+2028, U+2029, U+202F, U+205F,
  U+3000 and U+FEFF.
\<close>

definition isWhiteSpace :: "jschar \<Rightarrow> bool" where
  "isWhiteSpace c \<longleftrightarrow>
     (9 \<le> c \<and> c \<le> 13) \<or> c = 32 \<or> c = 160 \<or> c = 5760 \<or> (8192 \<le> c \<and> c \<le> 8202) \<or>
     c = 8232 \<or> c = 8233 \<or> c = 8239 \<or> c = 8287 \<or> c = 12288 \<or> c = 65279"

definition trim :: "jsstring \<Rightarrow> jsstring" where
  "trim s = rev (dropWhile isWhiteSpace (rev (dropWhile isWhiteSpace s)))"

fun joinWith :: "jsstring \<Rightarrow> jsstring list \<Rightarrow> jsstring" where
  "joinWith sep [] = []"
| "joinWith sep [x] = x"
| "joinWith sep (x # y # ys) = x @ sep @ joinWith sep (y # ys)"

definition padStart :: "nat \<Rightarrow> jschar \<Rightarrow> jsstring \<Rightarrow> jsstring" where
  "padStart n c s = replicate (n - length s) c @ s"

text \<open>
  \<open>Number.prototype.toString(radix)\<close> on an integer: the digits \<open>0\<close> to \<open>9\<close> and
  \<open>a\<close> to \<open>z\<close>, most significant first, after a minus sign when the number is negative.
\<close>

definition digitChar :: "nat \<Rightarrow> jschar" where
  "digitChar d = (if d < 10 then of_nat (48 + d) else of_nat (87 + d))"

function natToRadix :: "nat \<Rightarrow> nat \<Rightarrow> jsstring" where
  "natToRadix b n =
     (if b < 2 \<or> n < b then [digitChar n]
      else natToRadix b (n div b) @ [digitChar (n mod b)])"
  by pat_completeness auto
termination
  by (relation "measure (\<lambda>(b, n). n)") auto

declare natToRadix.simps [simp del]

definition numToString :: "nat \<Rightarrow> int \<Rightarrow> jsstring" where
  "numToString radix n =
     (if n < 0 then chr CHR ''-'' # natToRadix radix (nat (- n))
      else natToRadix radix (nat n))"

text \<open>
  The remainder operator \<open>%\<close> truncates towards zero: the result has the sign of the
  dividend.
\<close>

definition jsrem :: "int \<Rightarrow> int \<Rightarrow> int" where
  "jsrem a b = sgn a * (\<bar>a\<bar> mod \<bar>b\<bar>)"

text \<open>
  The operator \<open>^\<close> converts both operands to 32-bit two's complement integers and
  returns the signed value of their bitwise exclusive or.
\<close>

definition jsxor :: "int \<Rightarrow> int \<Rightarrow> int" where
  "jsxor a b = sint ((word_of_int a :: 32 word) XOR word_of_int b)"

text \<open>
  \<open>parseInt(s, 10)\<close>: leading white space is skipped, a sign is read, then the longest
  run of decimal digits; no digit at all gives \<open>NaN\<close>, here \<open>None\<close>. The value is the
  exact integer (the source's number is that integer as long as it has at most 15 digits).
\<close>

definition isDigit :: "jschar \<Rightarrow> bool" where
  "isDigit c \<longleftrightarrow> 48 \<le> c \<and> c \<le> 57"

definition digitsValue :: "jsstring \<Rightarrow> int" where
  "digitsValue ds = foldl (\<lambda>acc c. 10 * acc + (uint c - 48)) 0 ds"

definition parseDigits :: "jsstring \<Rightarrow> int option" where
  "parseDigits s =
     (let ds = takeWhile isDigit s in if ds = [] then None else Some (digitsValue ds))"

definition parseInt10 :: "jsstring \<Rightarrow> int option" where
  "parseInt10 s =
     (case dropWhile isWhiteSpace s of
        [] \<Rightarrow> None
      | c # cs \<Rightarrow>
          if c = chr CHR ''-'' then map_option uminus (parseDigits cs)
          else if c = chr CHR ''+'' then parseDigits cs
          else parseDigits (c # cs))"

section \<open>The Morse table\<close>

text \<open>
  An object literal is the list of its properties in the order written; a lookup takes
  the last binding of a key, as a repeated key of a literal or of \<open>Object.fromEntries\<close>
  overwrites the earlier one, and yields \<open>None\<close> for \<open>undefined\<close>.
\<close>

type_synonym jsobject = "(jsstring \<times> jsstring) list"

definition getProp :: "jsobject \<Rightarrow> jsstring \<Rightarrow> jsstring option" where
  "getProp obj k = map_of (rev obj) k"

definition MORSE_CODE :: jsobject where
  "MORSE_CODE = map (\<lambda>(k, v). (str k, str v))
     [(''A'', ''.-''), (''B'', ''-...''), (''C'', ''-.-.''), (''D'', ''-..''), (''E'', ''.''),
      (''F'', ''..-.''), (''G'', ''--.''), (''H'', ''....''), (''I'', ''..''), (''J'', ''.---''),
      (''K'', ''-.-''), (''L'', ''.-..''), (''M'', ''--''), (''N'', ''-.''), (''O'', ''---''),
      (''P'', ''.--.''), (''Q'', ''--.-''), (''R'', ''.-.''), (''S'', ''...''), (''T'', ''-''),
      (''U'', ''..-''), (''V'', ''...-''), (''W'', ''.--''), (''X'', ''-..-''), (''Y'', ''-.--''),
      (''Z'', ''--..''), (''0'', ''-----''), (''1'', ''.----''), (''2'', ''..---''),
      (''3'', ''...--''), (''4'', ''....-''), (''5'', ''.....''), (''6'', ''-....''),
      (''7'', ''--...''), (''8'', ''---..''), (''9'', ''----.''), ('' '', ''/'')]"

text \<open>
  \<open>Object.entries\<close> lists the keys that are array indices first, in ascending numeric
  order, then the other keys in the order they were written. The keys of the table are
  single code units, so the array indices among them are the digits.
\<close>

definition isIndexKey :: "jsstring \<Rightarrow> bool" where
  "isIndexKey k = (case k of [c] \<Rightarrow> isDigit c | _ \<Rightarrow> False)"

definition Object_entries :: "jsobject \<Rightarrow> jsobject" where
  "Object_entries obj =
     sort_key (\<lambda>(k, v). unat (hd k)) (filter (\<lambda>(k, v). isIndexKey k) obj)
     @ filter (\<lambda>(k, v). \<not> isIndexKey k) obj"

definition REVERSE_MORSE :: jsobject where
  "REVERSE_MORSE = map (\<lambda>(k, v). (v, k)) (Object_entries MORSE_CODE)"

definition textToMorse :: "jsstring \<Rightarrow> jsstring list" where
  "textToMorse text =
     filter (\<lambda>m. m \<noteq> [])
       (map (\<lambda>char. case getProp MORSE_CODE [char] of None \<Rightarrow> [] | Some m \<Rightarrow> m)
            (toUpperCase text))"

section \<open>The text transforms\<close>

definition caesarEncrypt :: "jsstring \<Rightarrow> int \<Rightarrow> jsstring" where
  "caesarEncrypt text shift =
     map (\<lambda>char.
            if chr CHR ''A'' \<le> char \<and> char \<le> chr CHR ''Z''
            then fromCharCode (jsrem (charCodeAt0 char - 65 + shift) 26 + 65)
            else char) text"

definition toBinary :: "jsstring \<Rightarrow> jsstring" where
  "toBinary text =
     joinWith (str '' '')
       (map (\<lambda>char. padStart 8 (chr CHR ''0'') (numToString 2 (charCodeAt0 char))) text)"

text \<open>\<open>parseInt(key, 10) || 11\<close>: \<open>NaN\<close> and \<open>0\<close> are falsy.\<close>

definition xorKeyNum :: "jsstring \<Rightarrow> int" where
  "xorKeyNum key = (case parseInt10 key of None \<Rightarrow> 11 | Some n \<Rightarrow> if n = 0 then 11 else n)"

definition xorEncrypt :: "jsstring \<Rightarrow> jsstring \<Rightarrow> jsstring" where
  "xorEncrypt text key =
     (let keyNum = xorKeyNum key in
      joinWith (str '' '')
        (map (\<lambda>char.
                let xored = jsxor (charCodeAt0 char) keyNum
                in toUpperCase (padStart 2 (chr CHR ''0'') (numToString 16 xored)))
             text))"

datatype EncryptionMode = none | caesar | binary | xor

record encrypted =
  display :: jsstring
  forMorse :: jsstring

text \<open>
  \<open>encryptMessage\<close> reads the component's \<open>encryptionMode\<close>, \<open>caesarShift\<close> and
  \<open>xorKey\<close>; they are its first three arguments here.
\<close>

definition encryptMessage :: "EncryptionMode \<Rightarrow> int \<Rightarrow> jsstring \<Rightarrow> jsstring \<Rightarrow> encrypted" where
  "encryptMessage encryptionMode caesarShift xorKey text =
     (case encryptionMode of
        caesar \<Rightarrow>
          let encrypted = caesarEncrypt text caesarShift
          in \<lparr>display = str ''[CAESAR+'' @ numToString 10 caesarShift @ str ''] '' @ encrypted,
              forMorse = encrypted\<rparr>
      | binary \<Rightarrow> \<lparr>display = str ''[BINARY] '' @ toBinary text, forMorse = text\<rparr>
      | xor \<Rightarrow>
          \<lparr>display = str ''[XOR^'' @ xorKey @ str ''] '' @ xorEncrypt text xorKey,
           forMorse = text\<rparr>
      | none \<Rightarrow> \<lparr>display = text, forMorse = text\<rparr>)"

text \<open>
  \<open>generateGlyph\<close>: a 32-bit hash of the text (\<open>hash << 5\<close>, the subtraction, the
  addition and \<open>hash & hash\<close> all end in a 32-bit integer, so the hash is computed on
  32-bit words), then an 8 by 8 grid, mirrored left to right, joined by line feeds.
  A cell is filled when its bit of the hash is set or the code unit at \<open>(y + x) % length\<close>
  is a multiple of 3 (never so for the empty text, where \<open>charCodeAt\<close> gives \<open>NaN\<close>).
\<close>

definition glyphHash :: "jsstring \<Rightarrow> 32 word" where
  "glyphHash text = foldl (\<lambda>hash c. push_bit 5 hash - hash + ucast c) 0 text"

definition glyphCell :: "jsstring \<Rightarrow> nat \<Rightarrow> nat \<Rightarrow> bool" where
  "glyphCell text y x \<longleftrightarrow>
     bit (glyphHash text) ((y * 4 + x) mod 32) \<or>
     (text \<noteq> [] \<and> charCodeAt0 (text ! ((y + x) mod length text)) mod 3 = 0)"

definition generateGlyph :: "jsstring \<Rightarrow> jsstring" where
  "generateGlyph text =
     joinWith [10]
       (map (\<lambda>y. map (\<lambda>x. if glyphCell text y (if x < 4 then x else 7 - x)
                          then 0x2588 else 0x2591) [0..<8])
            [0..<8])"

section \<open>The transmission store\<close>

text \<open>
  The table \<open>transmissions\<close>: its rows in insertion order, and the counter that
  \<open>AUTOINCREMENT\<close> keeps, the largest id ever given. A new row gets one more than the
  larger of that counter and the largest id in the table. The column \<open>created_at\<close>, which
  only \<open>getStats\<close> reads, is left out. \<open>None\<close> is the service before \<open>init\<close>
  (\<open>this.db\<close> is \<open>null\<close>): every operation returns at once. A text value is kept as
  the string it was given; how the SQL library stores a string that is not well-formed
  UTF-16 is not part of this development.
\<close>

record row =
  row_id :: nat
  row_message :: jsstring
  row_encrypted :: "jsstring option"
  row_timestamp :: jsstring
  row_encryption_mode :: jsstring

record table =
  rows :: "row list"
  seq :: nat

type_synonym TransmissionDB = "table option"

definition createTables :: TransmissionDB where
  "createTables = Some \<lparr>rows = [], seq = 0\<rparr>"

definition nextId :: "table \<Rightarrow> nat" where
  "nextId t = max (seq t) (foldr max (map row_id (rows t)) 0) + 1"

definition addTransmission ::
  "jsstring \<Rightarrow> jsstring option \<Rightarrow> jsstring \<Rightarrow> jsstring \<Rightarrow> TransmissionDB \<Rightarrow> TransmissionDB" where
  "addTransmission message encrypted timestamp encryptionMode db =
     (case db of
        None \<Rightarrow> None
      | Some t \<Rightarrow>
          Some \<lparr>rows = rows t @ [\<lparr>row_id = nextId t, row_message = message,
                                   row_encrypted = encrypted, row_timestamp = timestamp,
                                   row_encryption_mode = encryptionMode\<rparr>],
                seq = nextId t\<rparr>)"

definition clearAll :: "TransmissionDB \<Rightarrow> TransmissionDB" where
  "clearAll db = (case db of None \<Rightarrow> None | Some t \<Rightarrow> Some (t\<lparr>rows := []\<rparr>))"

text \<open>\<open>ORDER BY id DESC\<close>, and \<open>LIMIT n\<close>, where a negative \<open>n\<close> is no limit.\<close>

definition orderByIdDesc :: "row list \<Rightarrow> row list" where
  "orderByIdDesc rs = rev (sort_key row_id rs)"

definition limitRows :: "int \<Rightarrow> 'a list \<Rightarrow> 'a list" where
  "limitRows n rs = (if n < 0 then rs else take (nat n) rs)"

record recent =
  rc_message :: jsstring
  rc_encrypted :: "jsstring option"
  rc_timestamp :: jsstring

definition getRecentTransmissions :: "int \<Rightarrow> TransmissionDB \<Rightarrow> recent list" where
  "getRecentTransmissions limit db =
     (case db of
        None \<Rightarrow> []
      | Some t \<Rightarrow>
          map (\<lambda>r. \<lparr>rc_message = row_message r, rc_encrypted = row_encrypted r,
                    rc_timestamp = row_timestamp r\<rparr>)
              (limitRows limit (orderByIdDesc (rows t))))"

section \<open>The component state and the transmission\<close>

datatype signalType = dit | dah

record historyEntry =
  h_message :: jsstring
  h_timestamp :: jsstring
  h_encrypted :: "jsstring option"

text \<open>
  The state of \<open>UpsideDownCommunicator\<close> that the transmission reads and writes, and
  the store it saves to.
\<close>

record app =
  message :: jsstring
  morseOutput :: "jsstring list"
  isTransmitting :: bool
  currentSignalIndex :: nat
  transmissionHistory :: "historyEntry list"
  isFlashing :: bool
  currentSignalType :: "signalType option"
  emergencyMode :: bool
  encryptionMode :: EncryptionMode
  caesarShift :: int
  xorKey :: jsstring
  glyphCanvas :: jsstring
  showGlyph :: bool
  transmissionDB :: TransmissionDB

text \<open>
  What a handler or the effect does besides writing the state, in the order it does it:
  the audio calls, the state writes of the pulse chain, and the delay of each
  \<open>setTimeout\<close> before what follows it.
\<close>

datatype action =
    InitAudio
  | PlayClick
  | SetIsFlashing bool
  | SetCurrentSignalType "signalType option"
  | PlayTone nat nat
  | Timeout nat
  | IncCurrentSignalIndex

fun applyAction :: "action \<Rightarrow> app \<Rightarrow> app" where
  "applyAction (SetIsFlashing b) s = s\<lparr>isFlashing := b\<rparr>"
| "applyAction (SetCurrentSignalType t) s = s\<lparr>currentSignalType := t\<rparr>"
| "applyAction IncCurrentSignalIndex s = s\<lparr>currentSignalIndex := currentSignalIndex s + 1\<rparr>"
| "applyAction _ s = s"

text \<open>
  \<open>playSignal\<close>, the chain of one character: \<open>signals\<close> are the code units of its pulse
  string, \<open>signalIdx\<close> the closure's counter, \<open>emergency\<close> the \<open>emergencyMode\<close> the effect
  was created with.
\<close>

function playSignal :: "bool \<Rightarrow> jsstring \<Rightarrow> nat \<Rightarrow> action list" where
  "playSignal emergency signals signalIdx =
     (if signalIdx \<ge> length signals
      then [SetIsFlashing False, SetCurrentSignalType None, Timeout 500, IncCurrentSignalIndex]
      else
        let signal = signals ! signalIdx;
            isDit = (signal = chr CHR ''.'');
            duration = (if isDit then 200 else 600)
        in [SetIsFlashing True,
            SetCurrentSignalType (Some (if isDit then dit else dah)),
            PlayTone (if emergency then 880 else 700) duration,
            Timeout duration,
            SetIsFlashing False,
            SetCurrentSignalType None,
            Timeout 200]
           @ playSignal emergency signals (signalIdx + 1))"
  by pat_completeness auto
termination
  by (relation "measure (\<lambda>(e, signals, signalIdx). length signals - signalIdx)") auto

declare playSignal.simps [simp del]

definition modeName :: "EncryptionMode \<Rightarrow> jsstring" where
  "modeName m =
     (case m of none \<Rightarrow> str ''none'' | caesar \<Rightarrow> str ''caesar''
      | binary \<Rightarrow> str ''binary'' | xor \<Rightarrow> str ''xor'')"

definition encryptMessageOf :: "app \<Rightarrow> jsstring \<Rightarrow> encrypted" where
  "encryptMessageOf s text = encryptMessage (encryptionMode s) (caesarShift s) (xorKey s) text"

text \<open>
  One run of the effect ``Morse transmission'' in the state \<open>s\<close>: the chain of the current
  character or, past the last character, the completion. \<open>timestamp\<close> is the clock's
  \<open>toLocaleTimeString\<close> at that moment. The second component lists what the run does, in
  order, its timers included. The first component is the state these writes leave when
  nothing else writes in between; for the completion, which sets no timer, that is the
  state after the run.

  The component does not wait for a chain. The effect returns no cleanup and runs again
  after every render in which an element of its dependency list has changed; \<open>playTone\<close>
  is on that list and is created anew whenever \<open>currentSignalType\<close> changes, which every
  pulse does. Chains therefore run side by side, and the first component of a character's
  run is not the state the component is in when that chain ends.
\<close>

definition morseTransmission :: "jsstring \<Rightarrow> app \<Rightarrow> app \<times> action list" where
  "morseTransmission timestamp s =
     (if isTransmitting s \<and> currentSignalIndex s < length (morseOutput s) then
        let currentMorse = morseOutput s ! currentSignalIndex s;
            acts = playSignal (emergencyMode s) currentMorse 0
        in (fold applyAction acts s, acts)
      else if currentSignalIndex s \<ge> length (morseOutput s) \<and> isTransmitting s then
        let encrypted = encryptMessageOf s (message s)
        in (s\<lparr>transmissionHistory :=
                 transmissionHistory s @
                   [\<lparr>h_message = message s, h_timestamp = timestamp,
                     h_encrypted = Some (display encrypted)\<rparr>],
               transmissionDB :=
                 addTransmission (message s) (Some (display encrypted)) timestamp
                   (modeName (encryptionMode s)) (transmissionDB s),
               isTransmitting := False,
               currentSignalIndex := 0,
               isFlashing := False,
               currentSignalType := None,
               message := []\<rparr>, [])
      else (s, []))"

definition handleTransmit :: "app \<Rightarrow> app \<times> action list" where
  "handleTransmit s =
     (if trim (message s) \<noteq> [] then
        let encrypted = encryptMessageOf s (message s);
            morse = textToMorse (forMorse encrypted)
        in (s\<lparr>morseOutput := morse,
               isTransmitting := True,
               currentSignalIndex := 0,
               glyphCanvas := generateGlyph (message s),
               showGlyph := True\<rparr>, [InitAudio, PlayClick])
      else (s, []))"

text \<open>
  The button ``INITIATE TRANSMISSION'': \<open>onClick={handleTransmit}\<close>,
  \<open>disabled={isTransmitting || !message.trim()}\<close>. A disabled button gets no click.
\<close>

definition transmitButton :: "app \<Rightarrow> app \<times> action list" where
  "transmitButton s =
     (if isTransmitting s \<or> trim (message s) = [] then (s, []) else handleTransmit s)"

text \<open>
  The SOS button and the preset buttons are never disabled. The click writes the message
  and the emergency mode at once and sets a timer of 100 ms; the timer's callback writes
  the pulse strings, \<open>isTransmitting\<close> and the index. Both halves are given, the click
  with what it does besides.
\<close>

definition handleEmergencySOS :: "app \<Rightarrow> app \<times> action list" where
  "handleEmergencySOS s =
     (s\<lparr>emergencyMode := True, message := str ''SOS''\<rparr>, [InitAudio, PlayClick])"

definition handleEmergencySOS_timeout :: "app \<Rightarrow> app" where
  "handleEmergencySOS_timeout s =
     (let morse = textToMorse (str ''SOS'')
      in s\<lparr>morseOutput := morse,
            isTransmitting := True,
            currentSignalIndex := 0\<rparr>)"

definition handlePreset :: "jsstring \<Rightarrow> app \<Rightarrow> app \<times> action list" where
  "handlePreset preset s =
     (s\<lparr>message := preset,
        emergencyMode :=
          (preset = str ''HELP'' \<or> preset = str ''DANGER'' \<or> preset = str ''RUN'')\<rparr>,
      [InitAudio, PlayClick])"

definition handlePreset_timeout :: "jsstring \<Rightarrow> app \<Rightarrow> app" where
  "handlePreset_timeout preset s =
     (let morse = textToMorse preset
      in s\<lparr>morseOutput := morse,
            isTransmitting := True,
            currentSignalIndex := 0,
            glyphCanvas := generateGlyph preset,
            showGlyph := True\<rparr>)"

text \<open>
  The effect run again and again while \<open>isTransmitting\<close> holds, each chain taken to its
  end before the next run: the order in which the chain is written to be played. As said
  above the component leaves this order with the first pulse, so this function says
  nothing about a transmission that plays a pulse. It is used below only from states in
  which nothing is being transmitted, where the effect does nothing at all.
\<close>

function runTransmission :: "jsstring \<Rightarrow> app \<Rightarrow> app \<times> action list" where
  "runTransmission timestamp s =
     (if isTransmitting s then
        let step = morseTransmission timestamp s;
            rest = runTransmission timestamp (fst step)
        in (fst rest, snd step @ snd rest)
      else (s, []))"
  by pat_completeness auto
termination
proof (relation "measure (\<lambda>(timestamp, s).
    if isTransmitting s then 1 + (length (morseOutput s) - currentSignalIndex s) else 0)")
  show "wf (measure (\<lambda>(timestamp, s).
    if isTransmitting s then 1 + (length (morseOutput s) - currentSignalIndex s) else 0))"
    by simp
next
  fix timestamp :: jsstring and s :: app and step
  assume run: "isTransmitting s" and step: "step = morseTransmission timestamp s"
  have chain: "fold applyAction (playSignal e signals i) t =
      t\<lparr>isFlashing := False, currentSignalType := None,
        currentSignalIndex := currentSignalIndex t + 1\<rparr>" for e signals i t
  proof (induction e signals i arbitrary: t rule: playSignal.induct)
    case (1 emergency signals signalIdx)
    show ?case
    proof (cases "signalIdx \<ge> length signals")
      case True
      then show ?thesis by (subst playSignal.simps) simp
    next
      case False
      from "1.IH" [OF False refl refl refl]
      have IH: "fold applyAction (playSignal emergency signals (Suc signalIdx)) u =
          u\<lparr>isFlashing := False, currentSignalType := None,
            currentSignalIndex := currentSignalIndex u + 1\<rparr>" for u
        by simp
      from False show ?thesis
        by (subst playSignal.simps) (simp add: IH Let_def)
    qed
  qed
  show "((timestamp, fst step), (timestamp, s)) \<in> measure (\<lambda>(timestamp, s).
    if isTransmitting s then 1 + (length (morseOutput s) - currentSignalIndex s) else 0)"
    using run by (auto simp add: step morseTransmission_def chain Let_def)
qed

declare runTransmission.simps [simp del]

section \<open>Appending to the store\<close>

type_synonym entry = "jsstring \<times> jsstring option \<times> jsstring \<times> jsstring"

definition addEntry :: "TransmissionDB \<Rightarrow> entry \<Rightarrow> TransmissionDB" where
  "addEntry db e = (case e of (m, enc, ts, mode) \<Rightarrow> addTransmission m enc ts mode db)"

definition recentOf :: "entry \<Rightarrow> recent" where
  "recentOf e =
     (case e of (m, enc, ts, mode) \<Rightarrow> \<lparr>rc_message = m, rc_encrypted = enc, rc_timestamp = ts\<rparr>)"

text \<open>
  What every table made by \<open>createTables\<close>, \<open>addTransmission\<close> and \<open>clearAll\<close>
  satisfies: the ids grow along the rows and none exceeds the counter.
\<close>

definition wf_table :: "table \<Rightarrow> bool" where
  "wf_table t \<longleftrightarrow>
     sorted_wrt (<) (map row_id (rows t)) \<and> list_all (\<lambda>r. row_id r \<le> seq t) (rows t)"

section \<open>Reading the XOR text back\<close>

text \<open>
  The repository prints the XOR text and never reads it back: the spec's round trip
  (``reconstructed from hex pairs back to code points'', then ``a second XOR pass with the
  same key'') has no code. The definitions of this section model it from the spec's
  words: a pair is two hexadecimal digits, and pairs are separated by one space.
\<close>

text \<open>
  Modelled from the spec: the value of a hexadecimal digit, \<open>0\<close> to \<open>9\<close>, \<open>A\<close> to \<open>F\<close>
  or \<open>a\<close> to \<open>f\<close>. The repository has no decoder.
\<close>

definition hexDigit :: "jschar \<Rightarrow> int option" where
  "hexDigit c =
     (if 48 \<le> c \<and> c \<le> 57 then Some (uint c - 48)
      else if 65 \<le> c \<and> c \<le> 70 then Some (uint c - 55)
      else if 97 \<le> c \<and> c \<le> 102 then Some (uint c - 87)
      else None)"

text \<open>
  Modelled from the spec: the code point that a ``hex pair'', two hexadecimal digits,
  stands for. The repository has no decoder.
\<close>

definition hexPair :: "jschar \<Rightarrow> jschar \<Rightarrow> int option" where
  "hexPair a b =
     (case hexDigit a of
        None \<Rightarrow> None
      | Some x \<Rightarrow> (case hexDigit b of None \<Rightarrow> None | Some y \<Rightarrow> Some (16 * x + y)))"

text \<open>
  Modelled from the spec: ``reconstructed from hex pairs back to code points''. The text
  is read as pairs with one space between a pair and the next; what \<open>xorEncrypt\<close>
  prints for the empty text, the empty string, holds no pair; any other text, a numeral
  of three digits or one with a minus sign among them, is not a sequence of hex pairs
  and gives \<open>None\<close>. The repository has no decoder.
\<close>

fun codePointsOfHex :: "jsstring \<Rightarrow> int list option" where
  "codePointsOfHex [] = Some []"
| "codePointsOfHex [a] = None"
| "codePointsOfHex [a, b] = map_option (\<lambda>v. [v]) (hexPair a b)"
| "codePointsOfHex (a # b # sp # rest) =
     (if sp = chr CHR '' '' \<and> rest \<noteq> []
      then (case hexPair a b of
              None \<Rightarrow> None
            | Some v \<Rightarrow> map_option ((#) v) (codePointsOfHex rest))
      else None)"

text \<open>
  Modelled from the spec: the ``second XOR pass with the same key'' over the code points
  read back, each result made a code unit again. The key is parsed as \<open>xorEncrypt\<close>
  parses it. The repository has no decoder.
\<close>

definition xorDecode :: "jsstring \<Rightarrow> jsstring \<Rightarrow> jsstring option" where
  "xorDecode hex key =
     map_option (map (\<lambda>v. fromCharCode (jsxor v (xorKeyNum key)))) (codePointsOfHex hex)"

section \<open>The component's first state\<close>

text \<open>
  The initial values of the \<open>useState\<close> calls, with the store not yet opened, and the
  same state once \<open>init\<close> has found nothing saved and created the table.
\<close>

definition initialState :: app where
  "initialState =
     \<lparr>message = [], morseOutput = [], isTransmitting = False, currentSignalIndex = 0,
      transmissionHistory = [], isFlashing = False, currentSignalType = None,
      emergencyMode = False, encryptionMode = none, caesarShift = 3, xorKey = str ''11'',
      glyphCanvas = [], showGlyph = False, transmissionDB = None\<rparr>"

definition readyState :: app where
  "readyState = initialState\<lparr>transmissionDB := createTables\<rparr>"

text \<open>
  A state in which the transmission of \<open>AB\<close> has reached its second character: the
  message typed and the button clicked, then the writes of the first character's chain.
\<close>

definition running_AB :: app where
  "running_AB =
     fst (morseTransmission (str ''12:00:00'')
            (fst (handleTransmit (readyState\<lparr>message := str ''AB''\<rparr>))))"

text \<open>
  The state right after the click on the button with the message \<open>AB\<close> or \<open>SOS\<close> typed;
  the state in which the first pulse of \<open>SOS\<close> has just been started (flash on, signal
  type set, tone playing, its timer pending); and the state after a click on the preset
  \<open>RUN\<close> while \<open>AB\<close> is being transmitted and has reached its second character, once
  the preset's timer has fired.
\<close>

definition sending_AB :: app where
  "sending_AB = fst (handleTransmit (readyState\<lparr>message := str ''AB''\<rparr>))"



definition preset_RUN_during_AB :: app where
  "preset_RUN_during_AB =
     handlePreset_timeout (str ''RUN'')
       (fst (handlePreset (str ''RUN'') (sending_AB\<lparr>currentSignalIndex := 1\<rparr>)))"

section \<open>Lemmas on strings and numbers\<close>

lemma trim_blank_iff: "trim m = [] \<longleftrightarrow> (\<forall>c \<in> set m. isWhiteSpace c)"
proof (cases "dropWhile isWhiteSpace m = []")
  case True
  have "trim m = []"
    by (simp only: trim_def True rev.simps dropWhile.simps)
  moreover have "\<forall>c \<in> set m. isWhiteSpace c"
    using True by simp
  ultimately show ?thesis by simp
next
  case False
  then have "\<not> isWhiteSpace (hd (dropWhile isWhiteSpace m))"
    by (rule hd_dropWhile)
  moreover have "hd (dropWhile isWhiteSpace m) \<in> set (dropWhile isWhiteSpace m)"
    using False by simp
  ultimately have "trim m \<noteq> []"
    by (auto simp add: trim_def)
  moreover have "\<not> (\<forall>c \<in> set m. isWhiteSpace c)"
    using False by simp
  ultimately show ?thesis by simp
qed

lemma jsrem_nonneg: "0 \<le> a \<Longrightarrow> 0 < b \<Longrightarrow> jsrem a b = a mod b"
  by (cases "a = 0") (simp_all add: jsrem_def)

lemma natToRadix_nonempty: "natToRadix b n \<noteq> []"
  by (subst natToRadix.simps) simp

lemma xorKeyNum_zero: "parseInt10 key = Some 0 \<Longrightarrow> xorKeyNum key = 11"
  by (simp add: xorKeyNum_def)

lemma xorKeyNum_11: "xorKeyNum (str ''11'') = 11"
  by code_simp

lemma parseInt10_0: "parseInt10 (str ''0'') = Some 0"
  by code_simp

section \<open>Lemmas on the Morse table\<close>

lemma distinct_REVERSE_MORSE: "distinct (map fst REVERSE_MORSE)"
  by code_simp

lemma set_Object_entries: "set (Object_entries obj) = set obj"
  by (auto simp add: Object_entries_def)

lemma textToMorse_SOS: "textToMorse (str ''SOS'') = [str ''...'', str ''---'', str ''...'']"
  by code_simp

section \<open>Lemmas on the shift cipher\<close>

lemma caesar_char:
  fixes c :: jschar
  assumes k: "0 \<le> k" "k \<le> 25" and c: "chr CHR ''A'' \<le> c" "c \<le> chr CHR ''Z''"
  defines "d \<equiv> fromCharCode (jsrem (charCodeAt0 c - 65 + k) 26 + 65)"
  shows "chr CHR ''A'' \<le> d \<and> d \<le> chr CHR ''Z'' \<and>
         fromCharCode (jsrem (charCodeAt0 d - 65 + (26 - k)) 26 + 65) = c"
proof -
  from c have lo: "65 \<le> uint c" and hi: "uint c \<le> 90"
    by (simp_all add: chr_def word_le_def)
  define x where "x = uint c - 65"
  have x: "0 \<le> x" "x \<le> 25" using lo hi by (simp_all add: x_def)
  have r1: "jsrem (x + k) 26 = (x + k) mod 26"
    using x k by (intro jsrem_nonneg) auto
  have d_eq: "d = word_of_int ((x + k) mod 26 + 65)"
    by (simp add: d_def fromCharCode_def charCodeAt0_def r1 flip: x_def)
  have b: "0 \<le> (x + k) mod 26" "(x + k) mod 26 < 26" by simp_all
  have ud: "uint d = (x + k) mod 26 + 65"
    unfolding d_eq using b by (subst uint_word_of_int_eq) (simp add: take_bit_int_eq_self)
  have r2: "jsrem ((x + k) mod 26 + (26 - k)) 26 = ((x + k) mod 26 + (26 - k)) mod 26"
    using b k by (intro jsrem_nonneg) auto
  have inv: "((x + k) mod 26 + (26 - k)) mod 26 = x"
    using x k by presburger
  have "fromCharCode (jsrem (charCodeAt0 d - 65 + (26 - k)) 26 + 65) = word_of_int (x + 65)"
    by (simp add: fromCharCode_def charCodeAt0_def ud r2 inv)
  also have "\<dots> = c" by (simp add: x_def)
  finally have 3: "fromCharCode (jsrem (charCodeAt0 d - 65 + (26 - k)) 26 + 65) = c" .
  have "65 \<le> uint d" "uint d \<le> 90" using ud b by simp_all
  then have "chr CHR ''A'' \<le> d" "d \<le> chr CHR ''Z''"
    by (simp_all add: chr_def word_le_def)
  with 3 show ?thesis by simp
qed

section \<open>Lemmas on the pulse chain and the transmission\<close>

lemma playSignal_done:
  "length signals \<le> i \<Longrightarrow>
   playSignal e signals i =
     [SetIsFlashing False, SetCurrentSignalType None, Timeout 500, IncCurrentSignalIndex]"
  by (subst playSignal.simps) simp

lemma playSignal_pulse:
  "i < length signals \<Longrightarrow>
   playSignal e signals i =
     [SetIsFlashing True,
      SetCurrentSignalType (Some (if signals ! i = chr CHR ''.'' then dit else dah)),
      PlayTone (if e then 880 else 700) (if signals ! i = chr CHR ''.'' then 200 else 600),
      Timeout (if signals ! i = chr CHR ''.'' then 200 else 600),
      SetIsFlashing False,
      SetCurrentSignalType None,
      Timeout 200] @ playSignal e signals (Suc i)"
  by (subst playSignal.simps) (simp add: Let_def)

lemma playSignal_unfold:
  "playSignal e signals i =
     concat (map (\<lambda>signal.
       [SetIsFlashing True,
        SetCurrentSignalType (Some (if signal = chr CHR ''.'' then dit else dah)),
        PlayTone (if e then 880 else 700) (if signal = chr CHR ''.'' then 200 else 600),
        Timeout (if signal = chr CHR ''.'' then 200 else 600),
        SetIsFlashing False,
        SetCurrentSignalType None,
        Timeout 200]) (drop i signals))
     @ [SetIsFlashing False, SetCurrentSignalType None, Timeout 500, IncCurrentSignalIndex]"
proof (induction e signals i rule: playSignal.induct)
  case (1 emergency signals signalIdx)
  show ?case
  proof (cases "signalIdx \<ge> length signals")
    case True
    then show ?thesis by (simp add: playSignal_done)
  next
    case False
    then have lt: "signalIdx < length signals" by simp
    have d: "drop signalIdx signals = signals ! signalIdx # drop (Suc signalIdx) signals"
      using lt by (simp add: Cons_nth_drop_Suc)
    from "1.IH" [OF False refl refl refl] show ?thesis
      by (simp add: playSignal_pulse [OF lt] d)
  qed
qed

lemma playSignal_fold:
  "fold applyAction (playSignal e signals i) t =
     t\<lparr>isFlashing := False, currentSignalType := None,
       currentSignalIndex := currentSignalIndex t + 1\<rparr>"
proof -
  have "fold applyAction (concat (map (\<lambda>signal.
       [SetIsFlashing True,
        SetCurrentSignalType (Some (if signal = chr CHR ''.'' then dit else dah)),
        PlayTone (if e then 880 else 700) (if signal = chr CHR ''.'' then 200 else 600),
        Timeout (if signal = chr CHR ''.'' then 200 else 600),
        SetIsFlashing False,
        SetCurrentSignalType None,
        Timeout 200]) xs)) u = (if xs = [] then u else u\<lparr>isFlashing := False, currentSignalType := None\<rparr>)" for xs u
    by (induction xs arbitrary: u) simp_all
  then show ?thesis
    by (simp add: playSignal_unfold)
qed

lemma morseTransmission_char:
  "isTransmitting s \<Longrightarrow> currentSignalIndex s < length (morseOutput s) \<Longrightarrow>
   morseTransmission ts s =
     (s\<lparr>isFlashing := False, currentSignalType := None,
        currentSignalIndex := currentSignalIndex s + 1\<rparr>,
      playSignal (emergencyMode s) (morseOutput s ! currentSignalIndex s) 0)"
  by (simp add: morseTransmission_def playSignal_fold Let_def)

lemma morseTransmission_complete:
  "isTransmitting s \<Longrightarrow> length (morseOutput s) \<le> currentSignalIndex s \<Longrightarrow>
   morseTransmission ts s =
     (s\<lparr>transmissionHistory :=
          transmissionHistory s @
            [\<lparr>h_message = message s, h_timestamp = ts,
              h_encrypted = Some (display (encryptMessageOf s (message s)))\<rparr>],
        transmissionDB :=
          addTransmission (message s) (Some (display (encryptMessageOf s (message s)))) ts
            (modeName (encryptionMode s)) (transmissionDB s),
        isTransmitting := False,
        currentSignalIndex := 0,
        isFlashing := False,
        currentSignalType := None,
        message := []\<rparr>, [])"
  by (simp add: morseTransmission_def Let_def)

lemma runTransmission_idle: "\<not> isTransmitting s \<Longrightarrow> runTransmission ts s = (s, [])"
  by (subst runTransmission.simps) simp

section \<open>Lemmas on the store\<close>

lemma wf_table_fresh: "wf_table \<lparr>rows = [], seq = 0\<rparr>"
  by (simp add: wf_table_def)

lemma foldr_max_ge: "r \<in> set rs \<Longrightarrow> row_id r \<le> foldr max (map row_id rs) 0"
  by (induction rs) (auto simp add: max_def)

lemma nextId_gt: "r \<in> set (rows t) \<Longrightarrow> row_id r < nextId t"
  using foldr_max_ge [of r "rows t"] by (simp add: nextId_def max_def)

lemma addTransmission_Some:
  "addTransmission m enc ts mode (Some t) =
     Some \<lparr>rows = rows t @ [\<lparr>row_id = nextId t, row_message = m, row_encrypted = enc,
                               row_timestamp = ts, row_encryption_mode = mode\<rparr>],
           seq = nextId t\<rparr>"
  by (simp add: addTransmission_def)

lemma wf_table_add:
  assumes "wf_table t"
  shows "wf_table \<lparr>rows = rows t @ [\<lparr>row_id = nextId t, row_message = m, row_encrypted = enc,
                               row_timestamp = ts, row_encryption_mode = mode\<rparr>],
           seq = nextId t\<rparr>"
proof -
  have "\<forall>r \<in> set (rows t). row_id r < nextId t"
    by (simp add: nextId_gt)
  with assms show ?thesis
    by (auto simp add: wf_table_def sorted_wrt_append list_all_iff less_imp_le)
qed

lemma wf_table_clear: "wf_table t \<Longrightarrow> wf_table (t\<lparr>rows := []\<rparr>)"
  by (simp add: wf_table_def)

lemma orderByIdDesc_wf: "wf_table t \<Longrightarrow> orderByIdDesc (rows t) = rev (rows t)"
  by (simp add: orderByIdDesc_def wf_table_def sort_key_id_if_sorted strict_sorted_imp_sorted)

lemma addAll:
  "wf_table t \<Longrightarrow>
   \<exists>t'. foldl addEntry (Some t) es = Some t' \<and> wf_table t' \<and>
        map (\<lambda>r. \<lparr>rc_message = row_message r, rc_encrypted = row_encrypted r,
                    rc_timestamp = row_timestamp r\<rparr>) (rows t') =
        map (\<lambda>r. \<lparr>rc_message = row_message r, rc_encrypted = row_encrypted r,
                    rc_timestamp = row_timestamp r\<rparr>) (rows t) @ map recentOf es"
proof (induction es arbitrary: t)
  case Nil
  then show ?case by simp
next
  case (Cons e es)
  obtain m enc ts mode where e: "e = (m, enc, ts, mode)"
    by (cases e) auto
  let ?t1 = "\<lparr>rows = rows t @ [\<lparr>row_id = nextId t, row_message = m, row_encrypted = enc,
                               row_timestamp = ts, row_encryption_mode = mode\<rparr>],
           seq = nextId t\<rparr>"
  have wf1: "wf_table ?t1" using Cons.prems by (rule wf_table_add)
  have step: "addEntry (Some t) (m, enc, ts, mode) = Some ?t1"
    by (simp add: addEntry_def addTransmission_Some)
  from Cons.IH [OF wf1] show ?case
    by (auto simp add: step recentOf_def e)
qed

lemma recent_after_appends:
  assumes wf: "wf_table t" and n: "0 \<le> n" "nat n \<le> length es"
  shows "getRecentTransmissions n (foldl addEntry (Some t) es) =
           map recentOf (take (nat n) (rev es))"
proof -
  from addAll [OF wf, of es] obtain t' where
    t': "foldl addEntry (Some t) es = Some t'" and wf': "wf_table t'" and
    rs: "map (\<lambda>r. \<lparr>rc_message = row_message r, rc_encrypted = row_encrypted r,
                    rc_timestamp = row_timestamp r\<rparr>) (rows t') =
        map (\<lambda>r. \<lparr>rc_message = row_message r, rc_encrypted = row_encrypted r,
                    rc_timestamp = row_timestamp r\<rparr>) (rows t) @ map recentOf es"
    by blast
  have "getRecentTransmissions n (Some t') =
      take (nat n) (rev (map (\<lambda>r. \<lparr>rc_message = row_message r, rc_encrypted = row_encrypted r,
                    rc_timestamp = row_timestamp r\<rparr>) (rows t')))"
    using n by (simp add: getRecentTransmissions_def limitRows_def orderByIdDesc_wf [OF wf']
        take_map rev_map)
  also have "\<dots> = take (nat n) (rev (map recentOf es))"
    using n by (simp add: rs)
  also have "\<dots> = map recentOf (take (nat n) (rev es))"
    by (simp add: take_map rev_map)
  finally show ?thesis by (simp add: t')
qed

section \<open>Lemmas on reading the XOR text back\<close>

lemma jsxor_twice: "fromCharCode (jsxor (jsxor (charCodeAt0 c) k) k) = c"
proof -
  have "jsxor (jsxor (uint c) k) k = sint (ucast c :: 32 word)"
    by (simp add: jsxor_def xor.assoc)
  also have "\<dots> = uint c"
  proof -
    have "uint c < 65536" using uint_lt2p [of c] by simp
    moreover have "(65536 :: int) \<le> 2 ^ 31" by simp
    ultimately have hi: "uint c < 2 ^ 31" by linarith
    have "(- (2 ^ 31) :: int) \<le> 0" by simp
    moreover have "0 \<le> uint c" by simp
    ultimately have "- (2 ^ 31) \<le> uint c" by linarith
    then have s: "signed_take_bit 31 (uint c) = uint c"
      using hi by (rule signed_take_bit_int_eq_self)
    have "uint c < 2 ^ 32" using hi by simp
    then have u: "uint (ucast c :: 32 word) = uint c"
      by (simp add: unsigned_ucast_eq take_bit_int_eq_self)
    have "sint (ucast c :: 32 word) = signed_take_bit 31 (uint (ucast c :: 32 word))"
      by (simp add: sint_uint)
    then show ?thesis
      by (simp only: u s)
  qed
  finally show ?thesis
    by (simp add: fromCharCode_def charCodeAt0_def)
qed

lemma hexDigit_digitChar_all:
  "\<forall>d \<in> set [0..<16]. hexDigit (toUpperChar (digitChar d)) = Some (int d)"
  by code_simp

lemma hexDigit_digitChar: "d < 16 \<Longrightarrow> hexDigit (toUpperChar (digitChar d)) = Some (int d)"
  using hexDigit_digitChar_all by simp

lemma hexPair_digits:
  "a < 16 \<Longrightarrow> b < 16 \<Longrightarrow>
   hexPair (toUpperChar (digitChar a)) (toUpperChar (digitChar b)) = Some (16 * int a + int b)"
  by (simp add: hexPair_def hexDigit_digitChar)

lemma digitChar_zero: "chr CHR ''0'' = digitChar 0"
  by code_simp

lemma natToRadix_small: "n < 16 \<Longrightarrow> natToRadix 16 n = [digitChar n]"
  by (subst natToRadix.simps) simp

lemma natToRadix_two:
  assumes "16 \<le> n" and "n < 256"
  shows "natToRadix 16 n = [digitChar (n div 16), digitChar (n mod 16)]"
proof -
  from assms have "n div 16 < 16" by simp
  then have "natToRadix 16 (n div 16) = [digitChar (n div 16)]"
    by (rule natToRadix_small)
  with assms show ?thesis
    by (subst natToRadix.simps) simp
qed

lemma token_pair:
  assumes "0 \<le> v" and "v \<le> 255"
  shows "toUpperCase (padStart 2 (chr CHR ''0'') (numToString 16 v)) =
           [toUpperChar (digitChar (nat v div 16)), toUpperChar (digitChar (nat v mod 16))]"
proof (cases "nat v < 16")
  case True
  then show ?thesis
    using assms
    by (simp add: numToString_def natToRadix_small padStart_def toUpperCase_def digitChar_zero)
next
  case False
  with assms have "16 \<le> nat v" "nat v < 256" by simp_all
  then have "natToRadix 16 (nat v) = [digitChar (nat v div 16), digitChar (nat v mod 16)]"
    by (rule natToRadix_two)
  then show ?thesis
    using assms by (simp add: numToString_def padStart_def toUpperCase_def)
qed

lemma hexPair_token:
  assumes "0 \<le> v" and "v \<le> 255"
  shows "hexPair (toUpperChar (digitChar (nat v div 16))) (toUpperChar (digitChar (nat v mod 16)))
           = Some v"
proof -
  from assms have a: "nat v div 16 < 16" by simp
  have b: "nat v mod 16 < 16" by simp
  have "16 * int (nat v div 16) + int (nat v mod 16) = int (nat v)"
    by (simp add: zdiv_int zmod_int)
  with assms have "16 * int (nat v div 16) + int (nat v mod 16) = v" by simp
  with hexPair_digits [OF a b] show ?thesis by simp
qed

lemma codePoints_pairs:
  assumes "\<forall>x \<in> set xs. 0 \<le> f x \<and> f x \<le> 255"
  shows "codePointsOfHex (joinWith (str '' '')
           (map (\<lambda>x. toUpperCase (padStart 2 (chr CHR ''0'') (numToString 16 (f x)))) xs))
         = Some (map f xs)"
  using assms
proof (induction xs)
  case Nil
  then show ?case by simp
next
  case (Cons x xs)
  let ?tok = "\<lambda>x. toUpperCase (padStart 2 (chr CHR ''0'') (numToString 16 (f x)))"
  from Cons.prems have r: "0 \<le> f x" "f x \<le> 255" by simp_all
  note t = token_pair [OF r] and h = hexPair_token [OF r]
  show ?case
  proof (cases xs)
    case Nil
    then show ?thesis by (simp add: t h)
  next
    case (Cons y ys)
    from Cons.prems Cons have ry: "0 \<le> f y" "f y \<le> 255" by simp_all
    have ne: "joinWith (str '' '') (map ?tok xs) \<noteq> []"
      using Cons by (cases ys) (simp_all add: token_pair [OF ry])
    have IH: "codePointsOfHex (joinWith (str '' '') (map ?tok xs)) = Some (map f xs)"
      using Cons.IH Cons.prems by simp
    have "joinWith (str '' '') (map ?tok (x # xs)) =
        toUpperChar (digitChar (nat (f x) div 16)) # toUpperChar (digitChar (nat (f x) mod 16)) #
        chr CHR '' '' # joinWith (str '' '') (map ?tok xs)"
      using Cons by (simp add: t str_def)
    then show ?thesis
      using ne by (simp add: h IH)
  qed
qed

lemma xor_roundtrip_pairs:
  assumes "\<forall>c \<in> set text. 0 \<le> jsxor (charCodeAt0 c) (xorKeyNum key) \<and>
                            jsxor (charCodeAt0 c) (xorKeyNum key) \<le> 255"
  shows "xorDecode (xorEncrypt text key) key = Some text"
proof -
  have "codePointsOfHex (xorEncrypt text key) =
      Some (map (\<lambda>char. jsxor (charCodeAt0 char) (xorKeyNum key)) text)"
    unfolding xorEncrypt_def Let_def using assms by (rule codePoints_pairs)
  then have "xorDecode (xorEncrypt text key) key =
      Some (map (\<lambda>char. fromCharCode
        (jsxor (jsxor (charCodeAt0 char) (xorKeyNum key)) (xorKeyNum key))) text)"
    by (simp add: xorDecode_def comp_def)
  also have "\<dots> = Some text"
    by (simp add: jsxor_twice map_idI)
  finally show ?thesis .
qed

lemma jsxor_small:
  assumes "uint c \<le> 255" and "0 \<le> k" and "k \<le> 255"
  shows "0 \<le> jsxor (charCodeAt0 c) k \<and> jsxor (charCodeAt0 c) k \<le> 255"
proof -
  let ?x = "uint c XOR k"
  have c: "0 \<le> uint c" by simp
  have lo: "0 \<le> ?x" using c assms(2) by simp
  have "uint c < 2 ^ 8" "k < 2 ^ 8" using assms by simp_all
  with c have "?x < 2 ^ 8" by (intro XOR_upper)
  then have hi: "?x \<le> 255" by simp
  have "(- (2 ^ 31) :: int) \<le> 0" by simp
  with lo have l31: "- (2 ^ 31) \<le> ?x" by linarith
  have "(255 :: int) < 2 ^ 31" by simp
  with hi have h31: "?x < 2 ^ 31" by linarith
  have "jsxor (uint c) k = sint (word_of_int ?x :: 32 word)"
    by (simp only: jsxor_def word_wi_log_defs)
  also have "\<dots> = signed_take_bit 31 ?x"
    by (simp add: sint_sbintrunc')
  also have "\<dots> = ?x"
    using l31 h31 by (rule signed_take_bit_int_eq_self)
  finally show ?thesis
    using lo hi by (simp add: charCodeAt0_def)
qed

section \<open>Lemmas for the statements on concrete states\<close>

lemma concat_block:
  assumes "\<And>x. length (f x) = n" and "j < length xs"
  shows "take n (drop (n * j) (concat (map f xs) @ e)) = f (xs ! j)"
  using assms(2)
proof (induction xs arbitrary: j)
  case Nil
  then show ?case by simp
next
  case (Cons x xs)
  show ?case
  proof (cases j)
    case 0
    then show ?thesis by (simp add: assms(1))
  next
    case (Suc i)
    with Cons.prems have i: "i < length xs" by simp
    have "drop (n * Suc i) (f x @ concat (map f xs) @ e) = drop (n * i) (concat (map f xs) @ e)"
      by (simp add: assms(1))
    with Cons.IH [OF i] Suc show ?thesis by simp
  qed
qed

lemma concat_tail:
  assumes "\<And>x. length (f x) = n"
  shows "drop (n * length xs) (concat (map f xs) @ e) = e"
  by (induction xs) (simp_all add: assms)

lemma handleTransmit_go:
  "trim (message s) \<noteq> [] \<Longrightarrow>
   handleTransmit s =
     (s\<lparr>morseOutput := textToMorse (forMorse (encryptMessageOf s (message s))),
        isTransmitting := True,
        currentSignalIndex := 0,
        glyphCanvas := generateGlyph (message s),
        showGlyph := True\<rparr>, [InitAudio, PlayClick])"
  by (simp add: handleTransmit_def Let_def)


lemma running_AB_state:
  "running_AB = readyState\<lparr>message := str ''AB'',
      morseOutput := [str ''.-'', str ''-...''], isTransmitting := True,
      currentSignalIndex := 1, glyphCanvas := generateGlyph (str ''AB''), showGlyph := True\<rparr>"
proof -
  have m: "textToMorse (str ''AB'') = [str ''.-'', str ''-...'']" by code_simp
  have t: "trim (str ''AB'') \<noteq> []" by code_simp
  show ?thesis
    by (simp add: running_AB_def handleTransmit_def t m morseTransmission_char Let_def
        encryptMessageOf_def encryptMessage_def readyState_def initialState_def)
qed

lemma trim_AB: "trim (str ''AB'') \<noteq> []"
  by code_simp

lemma textToMorse_AB: "textToMorse (str ''AB'') = [str ''.-'', str ''-...'']"
  by code_simp

lemma textToMorse_RUN: "textToMorse (str ''RUN'') = [str ''.-.'', str ''..-'', str ''-.'']"
  by code_simp

lemma sending_AB_state:
  "sending_AB = readyState\<lparr>message := str ''AB'',
      morseOutput := [str ''.-'', str ''-...''], isTransmitting := True,
      currentSignalIndex := 0, glyphCanvas := generateGlyph (str ''AB''), showGlyph := True\<rparr>"
  by (simp add: sending_AB_def handleTransmit_go trim_AB textToMorse_AB
      encryptMessageOf_def encryptMessage_def readyState_def initialState_def)



section \<open>The claims\<close>

text \<open>
  C1. The claim: while a transmission is running, a further transmit changes nothing and
  the one history entry is for the first message. The button ``INITIATE TRANSMISSION''
  keeps it: it is disabled, and a click does nothing. The preset buttons and the SOS
  button start a transmission too and are never disabled: in the state in which \<open>AB\<close>
  is being sent and has reached its second character, a click on the preset \<open>RUN\<close>
  replaces the message at once and, when its timer fires, the pulse strings, and puts the
  index back to 0; the entry that the completion then appends is for \<open>RUN\<close>, and none is
  appended for \<open>AB\<close>. The SOS button does the same with \<open>SOS\<close>.
\<close>

theorem preset_during_transmission:
  "isTransmitting (sending_AB\<lparr>currentSignalIndex := 1\<rparr>) \<and>
   message (sending_AB\<lparr>currentSignalIndex := 1\<rparr>) = str ''AB'' \<and>
   morseOutput (sending_AB\<lparr>currentSignalIndex := 1\<rparr>) = [str ''.-'', str ''-...''] \<and>
   transmitButton (sending_AB\<lparr>currentSignalIndex := 1\<rparr>) =
     (sending_AB\<lparr>currentSignalIndex := 1\<rparr>, []) \<and>
   message (fst (handlePreset (str ''RUN'') (sending_AB\<lparr>currentSignalIndex := 1\<rparr>))) =
     str ''RUN'' \<and>
   isTransmitting preset_RUN_during_AB \<and>
   message preset_RUN_during_AB = str ''RUN'' \<and>
   morseOutput preset_RUN_during_AB = [str ''.-.'', str ''..-'', str ''-.''] \<and>
   currentSignalIndex preset_RUN_during_AB = 0 \<and>
   transmissionHistory
     (fst (morseTransmission (str ''12:00:09'')
        (preset_RUN_during_AB\<lparr>currentSignalIndex := 3\<rparr>))) =
     [\<lparr>h_message = str ''RUN'', h_timestamp = str ''12:00:09'',
       h_encrypted = Some (str ''RUN'')\<rparr>] \<and>
   message (fst (handleEmergencySOS (sending_AB\<lparr>currentSignalIndex := 1\<rparr>))) = str ''SOS'' \<and>
   morseOutput (handleEmergencySOS_timeout
      (fst (handleEmergencySOS (sending_AB\<lparr>currentSignalIndex := 1\<rparr>)))) =
     [str ''...'', str ''---'', str ''...''] \<and>
   currentSignalIndex (handleEmergencySOS_timeout
      (fst (handleEmergencySOS (sending_AB\<lparr>currentSignalIndex := 1\<rparr>)))) = 0"
proof -
  note s = sending_AB_state
  have 1: "isTransmitting (sending_AB\<lparr>currentSignalIndex := 1\<rparr>)"
    "message (sending_AB\<lparr>currentSignalIndex := 1\<rparr>) = str ''AB''"
    "morseOutput (sending_AB\<lparr>currentSignalIndex := 1\<rparr>) = [str ''.-'', str ''-...'']"
    by (simp_all add: s)
  have 2: "transmitButton (sending_AB\<lparr>currentSignalIndex := 1\<rparr>) =
     (sending_AB\<lparr>currentSignalIndex := 1\<rparr>, [])"
    by (simp add: transmitButton_def s)
  have 3: "message (fst (handlePreset (str ''RUN'') (sending_AB\<lparr>currentSignalIndex := 1\<rparr>))) =
     str ''RUN''"
    by (simp add: handlePreset_def)
  have p: "preset_RUN_during_AB = sending_AB\<lparr>message := str ''RUN'', emergencyMode := True,
      morseOutput := [str ''.-.'', str ''..-'', str ''-.''], isTransmitting := True,
      currentSignalIndex := 0, glyphCanvas := generateGlyph (str ''RUN''), showGlyph := True\<rparr>"
    by (simp add: preset_RUN_during_AB_def handlePreset_def handlePreset_timeout_def
        textToMorse_RUN Let_def)
  have 4: "isTransmitting preset_RUN_during_AB" "message preset_RUN_during_AB = str ''RUN''"
    "morseOutput preset_RUN_during_AB = [str ''.-.'', str ''..-'', str ''-.'']"
    "currentSignalIndex preset_RUN_during_AB = 0"
    by (simp_all add: p)
  have 5: "transmissionHistory
     (fst (morseTransmission (str ''12:00:09'')
        (preset_RUN_during_AB\<lparr>currentSignalIndex := 3\<rparr>))) =
     [\<lparr>h_message = str ''RUN'', h_timestamp = str ''12:00:09'',
       h_encrypted = Some (str ''RUN'')\<rparr>]"
    by (simp add: morseTransmission_complete 4 p s encryptMessageOf_def encryptMessage_def
        readyState_def initialState_def)
  have 6: "message (fst (handleEmergencySOS (sending_AB\<lparr>currentSignalIndex := 1\<rparr>))) = str ''SOS''"
    "morseOutput (handleEmergencySOS_timeout
      (fst (handleEmergencySOS (sending_AB\<lparr>currentSignalIndex := 1\<rparr>)))) =
     [str ''...'', str ''---'', str ''...'']"
    "currentSignalIndex (handleEmergencySOS_timeout
      (fst (handleEmergencySOS (sending_AB\<lparr>currentSignalIndex := 1\<rparr>)))) = 0"
    by (simp_all add: handleEmergencySOS_def handleEmergencySOS_timeout_def textToMorse_SOS Let_def)
  from 1 2 3 4 5 6 show ?thesis by simp
qed

text \<open>
  C2 (as amended). After \<open>k\<close> entries were appended to a store, \<open>getRecentTransmissions\<close>
  with a limit \<open>n < k\<close> returns exactly the \<open>n\<close> entries appended last, the most recent
  first (\<open>ORDER BY id DESC\<close>); reversed, as the caller does, they are the last \<open>n\<close>
  entries in the order they were appended.
\<close>

theorem getRecentTransmissions_newest_first:
  assumes "wf_table t" and "0 \<le> n" and "n < int (length es)"
  shows "getRecentTransmissions n (foldl addEntry (Some t) es) =
           map recentOf (take (nat n) (rev es)) \<and>
         rev (getRecentTransmissions n (foldl addEntry (Some t) es)) =
           map recentOf (drop (length es - nat n) es)"
proof -
  from assms have le: "nat n \<le> length es" by simp
  have 1: "getRecentTransmissions n (foldl addEntry (Some t) es) =
           map recentOf (take (nat n) (rev es))"
    using assms(1,2) le by (rule recent_after_appends)
  have "rev (take (nat n) (rev es)) = drop (length es - nat n) es"
    by (simp add: rev_take)
  then have "rev (map recentOf (take (nat n) (rev es))) = map recentOf (drop (length es - nat n) es)"
    by (simp only: rev_map)
  with 1 show ?thesis by simp
qed

theorem getRecentTransmissions_newest_first_witness:
  "createTables = Some \<lparr>rows = [], seq = 0\<rparr> \<and>
   wf_table \<lparr>rows = [], seq = 0\<rparr> \<and>
   getRecentTransmissions 2
     (foldl addEntry (Some \<lparr>rows = [], seq = 0\<rparr>)
        [(str ''A'', None, str ''12:00:01'', str ''none''),
         (str ''B'', None, str ''12:00:02'', str ''none''),
         (str ''C'', None, str ''12:00:03'', str ''none'')]) =
     [\<lparr>rc_message = str ''C'', rc_encrypted = None, rc_timestamp = str ''12:00:03''\<rparr>,
      \<lparr>rc_message = str ''B'', rc_encrypted = None, rc_timestamp = str ''12:00:02''\<rparr>] \<and>
   rev (getRecentTransmissions 2
     (foldl addEntry (Some \<lparr>rows = [], seq = 0\<rparr>)
        [(str ''A'', None, str ''12:00:01'', str ''none''),
         (str ''B'', None, str ''12:00:02'', str ''none''),
         (str ''C'', None, str ''12:00:03'', str ''none'')])) =
     [\<lparr>rc_message = str ''B'', rc_encrypted = None, rc_timestamp = str ''12:00:02''\<rparr>,
      \<lparr>rc_message = str ''C'', rc_encrypted = None, rc_timestamp = str ''12:00:03''\<rparr>]"
proof -
  have w: "wf_table \<lparr>rows = [], seq = 0\<rparr>" by (rule wf_table_fresh)
  from getRecentTransmissions_newest_first [OF w, of 2
        "[(str ''A'', None, str ''12:00:01'', str ''none''),
         (str ''B'', None, str ''12:00:02'', str ''none''),
         (str ''C'', None, str ''12:00:03'', str ''none'')]"] w
  show ?thesis
    by (simp add: recentOf_def createTables_def)
qed

text \<open>
  The claim as first stated fails: after \<open>A\<close>, \<open>B\<close>, \<open>C\<close> the query with limit 2 returns
  \<open>C\<close> first and \<open>B\<close> last.
\<close>

theorem getRecentTransmissions_order_counterexample:
  "rc_message (hd (getRecentTransmissions 2
     (addTransmission (str ''C'') None (str ''12:00:03'') (str ''none'')
       (addTransmission (str ''B'') None (str ''12:00:02'') (str ''none'')
         (addTransmission (str ''A'') None (str ''12:00:01'') (str ''none'') createTables))))) =
     str ''C'' \<and>
   rc_message (last (getRecentTransmissions 2
     (addTransmission (str ''C'') None (str ''12:00:03'') (str ''none'')
       (addTransmission (str ''B'') None (str ''12:00:02'') (str ''none'')
         (addTransmission (str ''A'') None (str ''12:00:01'') (str ''none'') createTables))))) =
     str ''B'' \<and>
   str ''B'' \<noteq> str ''C''"
  by code_simp


text \<open>
  C3. In caesar mode the text that goes to Morse is the shifted text; in binary and xor
  mode it is the text as given and only the displayed text carries the transform; in
  none mode both are the text as given. So the pulse strings that \<open>handleTransmit\<close>
  stores come from the shifted message in caesar mode and from the message itself in
  the other three.
\<close>

theorem encryptMessage_modes:
  "forMorse (encryptMessage caesar shift key text) = caesarEncrypt text shift \<and>
   display (encryptMessage caesar shift key text) =
     str ''[CAESAR+'' @ numToString 10 shift @ str ''] '' @ caesarEncrypt text shift \<and>
   forMorse (encryptMessage binary shift key text) = text \<and>
   display (encryptMessage binary shift key text) = str ''[BINARY] '' @ toBinary text \<and>
   forMorse (encryptMessage xor shift key text) = text \<and>
   display (encryptMessage xor shift key text) =
     str ''[XOR^'' @ key @ str ''] '' @ xorEncrypt text key \<and>
   forMorse (encryptMessage none shift key text) = text \<and>
   display (encryptMessage none shift key text) = text \<and>
   (trim (message s) \<noteq> [] \<longrightarrow>
      morseOutput (fst (handleTransmit s)) =
        textToMorse (if encryptionMode s = caesar
                     then caesarEncrypt (message s) (caesarShift s) else message s))"
proof -
  have "forMorse (encryptMessageOf s (message s)) =
      (if encryptionMode s = caesar
       then caesarEncrypt (message s) (caesarShift s) else message s)"
    by (cases "encryptionMode s") (simp_all add: encryptMessageOf_def encryptMessage_def Let_def)
  then have "trim (message s) \<noteq> [] \<longrightarrow>
      morseOutput (fst (handleTransmit s)) =
        textToMorse (if encryptionMode s = caesar
                     then caesarEncrypt (message s) (caesarShift s) else message s)"
    by (simp add: handleTransmit_go)
  then show ?thesis
    by (simp add: encryptMessage_def Let_def)
qed

theorem encryptMessage_modes_witness:
  "trim (message (readyState\<lparr>message := str ''HI'', encryptionMode := caesar\<rparr>)) \<noteq> [] \<and>
   forMorse (encryptMessage caesar 3 (str ''11'') (str ''HI'')) = str ''KL'' \<and>
   display (encryptMessage caesar 3 (str ''11'') (str ''HI'')) = str ''[CAESAR+3] KL'' \<and>
   forMorse (encryptMessage xor 3 (str ''11'') (str ''HI'')) = str ''HI'' \<and>
   display (encryptMessage xor 3 (str ''11'') (str ''HI'')) = str ''[XOR^11] 43 42'' \<and>
   forMorse (encryptMessage binary 3 (str ''11'') (str ''HI'')) = str ''HI'' \<and>
   display (encryptMessage binary 3 (str ''11'') (str ''HI'')) =
     str ''[BINARY] 01001000 01001001'' \<and>
   morseOutput (fst (handleTransmit
       (readyState\<lparr>message := str ''HI'', encryptionMode := caesar\<rparr>))) =
     [str ''-.-'', str ''.-..'']"
proof -
  have t: "trim (message (readyState\<lparr>message := str ''HI'', encryptionMode := caesar\<rparr>)) \<noteq> []"
    by code_simp
  have c: "caesarEncrypt (str ''HI'') 3 = str ''KL''" by code_simp
  have x: "xorEncrypt (str ''HI'') (str ''11'') = str ''43 42''" by code_simp
  have b: "toBinary (str ''HI'') = str ''01001000 01001001''" by code_simp
  have n: "numToString 10 3 = str ''3''" by code_simp
  have m: "textToMorse (str ''KL'') = [str ''-.-'', str ''.-..'']" by code_simp
  have a: "str ''[CAESAR+'' @ str ''3'' @ str ''] '' @ str ''KL'' = str ''[CAESAR+3] KL''"
    "str ''[XOR^'' @ str ''11'' @ str ''] '' @ str ''43 42'' = str ''[XOR^11] 43 42''"
    "str ''[BINARY] '' @ str ''01001000 01001001'' = str ''[BINARY] 01001000 01001001''"
    by (simp_all add: str_def)
  have f: "message (readyState\<lparr>message := str ''HI'', encryptionMode := caesar\<rparr>) = str ''HI''"
    "encryptionMode (readyState\<lparr>message := str ''HI'', encryptionMode := caesar\<rparr>) = caesar"
    "caesarShift (readyState\<lparr>message := str ''HI'', encryptionMode := caesar\<rparr>) = 3"
    by (simp_all add: readyState_def initialState_def)
  from encryptMessage_modes [of 3 "str ''11''" "str ''HI''"
      "readyState\<lparr>message := str ''HI'', encryptionMode := caesar\<rparr>"] t
  show ?thesis
    by (simp add: c x b n m a f)
qed


text \<open>
  C5. In the chain of the current character, the pulse number \<open>j\<close> is: flash on, a tone of
  880 Hz in emergency mode and 700 Hz otherwise, lasting 200 ms for \<open>.\<close> and 600 ms
  for any other symbol, \<open>-\<close> among them, that long a wait, flash off, and a wait of 200 ms;
  after the last pulse come a wait of 500 ms and the step to the next character.
\<close>

theorem pulse_timing:
  assumes "isTransmitting s"
      and "currentSignalIndex s < length (morseOutput s)"
      and "j < length (morseOutput s ! currentSignalIndex s)"
  shows "take 7 (drop (7 * j) (snd (morseTransmission ts s))) =
           [SetIsFlashing True,
            SetCurrentSignalType
              (Some (if morseOutput s ! currentSignalIndex s ! j = chr CHR ''.'' then dit else dah)),
            PlayTone (if emergencyMode s then 880 else 700)
              (if morseOutput s ! currentSignalIndex s ! j = chr CHR ''.'' then 200 else 600),
            Timeout (if morseOutput s ! currentSignalIndex s ! j = chr CHR ''.'' then 200 else 600),
            SetIsFlashing False,
            SetCurrentSignalType None,
            Timeout 200] \<and>
         drop (7 * length (morseOutput s ! currentSignalIndex s)) (snd (morseTransmission ts s)) =
           [SetIsFlashing False, SetCurrentSignalType None, Timeout 500, IncCurrentSignalIndex]"
proof -
  let ?signals = "morseOutput s ! currentSignalIndex s"
  let ?f = "\<lambda>signal.
       [SetIsFlashing True,
        SetCurrentSignalType (Some (if signal = chr CHR ''.'' then dit else dah)),
        PlayTone (if emergencyMode s then 880 else 700) (if signal = chr CHR ''.'' then 200 else 600),
        Timeout (if signal = chr CHR ''.'' then 200 else 600),
        SetIsFlashing False,
        SetCurrentSignalType None,
        Timeout 200]"
  have acts: "snd (morseTransmission ts s) =
      concat (map ?f ?signals)
      @ [SetIsFlashing False, SetCurrentSignalType None, Timeout 500, IncCurrentSignalIndex]"
    using assms(1,2) by (simp add: morseTransmission_char playSignal_unfold)
  have len: "\<And>x. length (?f x) = 7" by simp
  from concat_block [of ?f 7 j ?signals, OF len assms(3)]
       concat_tail [of ?f 7 ?signals, OF len]
  show ?thesis unfolding acts by simp
qed

theorem pulse_timing_witness:
  "isTransmitting running_AB \<and>
   currentSignalIndex running_AB = 1 \<and>
   morseOutput running_AB = [str ''.-'', str ''-...''] \<and>
   take 7 (drop (7 * 0) (snd (morseTransmission (str ''12:00:01'') running_AB))) =
     [SetIsFlashing True, SetCurrentSignalType (Some dah), PlayTone 700 600, Timeout 600,
      SetIsFlashing False, SetCurrentSignalType None, Timeout 200] \<and>
   take 7 (drop (7 * 1) (snd (morseTransmission (str ''12:00:01'') running_AB))) =
     [SetIsFlashing True, SetCurrentSignalType (Some dit), PlayTone 700 200, Timeout 200,
      SetIsFlashing False, SetCurrentSignalType None, Timeout 200] \<and>
   drop (7 * 4) (snd (morseTransmission (str ''12:00:01'') running_AB)) =
     [SetIsFlashing False, SetCurrentSignalType None, Timeout 500, IncCurrentSignalIndex]"
proof -
  note r = running_AB_state
  have a: "isTransmitting running_AB" by (simp add: r)
  have b: "currentSignalIndex running_AB < length (morseOutput running_AB)" by (simp add: r)
  have c0: "0 < length (morseOutput running_AB ! currentSignalIndex running_AB)"
    by (simp add: r str_def)
  have c1: "1 < length (morseOutput running_AB ! currentSignalIndex running_AB)"
    by (simp add: r str_def)
  have e: "emergencyMode running_AB = False" by (simp add: r readyState_def initialState_def)
  have x: "morseOutput running_AB ! currentSignalIndex running_AB = str ''-...''" by (simp add: r)
  have y: "str ''-...'' ! 0 \<noteq> chr CHR ''.''" "str ''-...'' ! Suc 0 = chr CHR ''.''"
    "length (str ''-...'') = 4"
    by (simp_all add: str_def chr_def)
  from pulse_timing [OF a b c0, of "str ''12:00:01''"]
       pulse_timing [OF a b c1, of "str ''12:00:01''"]
  show ?thesis
    by (simp add: x y e) (simp add: r)
qed

text \<open>
  C6. For every code unit \<open>c\<close> whose upper case has an entry in \<open>MORSE_CODE\<close>, looking
  that entry up in \<open>REVERSE_MORSE\<close> gives the upper case of \<open>c\<close> back.
\<close>

theorem decode_encode:
  assumes "getProp MORSE_CODE [toUpperChar c] = Some m"
  shows "getProp REVERSE_MORSE m = Some [toUpperChar c]"
proof -
  from assms have "([toUpperChar c], m) \<in> set MORSE_CODE"
    unfolding getProp_def by (auto dest: map_of_SomeD)
  then have "(m, [toUpperChar c]) \<in> set (rev REVERSE_MORSE)"
    by (auto simp add: REVERSE_MORSE_def set_Object_entries)
  moreover have "distinct (map fst (rev REVERSE_MORSE))"
    using distinct_REVERSE_MORSE by (simp add: rev_map [symmetric])
  ultimately show ?thesis
    unfolding getProp_def by (rule map_of_is_SomeI [rotated])
qed

theorem decode_encode_witness:
  "getProp MORSE_CODE [toUpperChar (chr CHR ''s'')] = Some (str ''...'') \<and>
   getProp REVERSE_MORSE (str ''...'') = Some (str ''S'')"
proof -
  have h: "getProp MORSE_CODE [toUpperChar (chr CHR ''s'')] = Some (str ''...'')"
    by code_simp
  have u: "[toUpperChar (chr CHR ''s'')] = str ''S''"
    by code_simp
  from decode_encode [OF h] h u show ?thesis by simp
qed

text \<open>
  C7. For every shift \<open>k\<close> from 0 to 25, shifting by \<open>k\<close> and then by \<open>26 - k\<close> gives the
  text back. It holds for every text, the all-uppercase ones among them: the code units
  outside \<open>A\<close> to \<open>Z\<close> pass through both times.
\<close>

theorem shift_inverse:
  assumes "0 \<le> k" and "k \<le> 25"
  shows "caesarEncrypt (caesarEncrypt text k) (26 - k) = text"
proof -
  have "\<And>c. (\<lambda>char. if chr CHR ''A'' \<le> char \<and> char \<le> chr CHR ''Z''
            then fromCharCode (jsrem (charCodeAt0 char - 65 + (26 - k)) 26 + 65)
            else char) ((\<lambda>char. if chr CHR ''A'' \<le> char \<and> char \<le> chr CHR ''Z''
            then fromCharCode (jsrem (charCodeAt0 char - 65 + k) 26 + 65)
            else char) c) = c"
    using caesar_char [OF assms] by auto
  then show ?thesis
    unfolding caesarEncrypt_def by (simp add: comp_def map_idI)
qed

theorem shift_inverse_witness:
  "(0 :: int) \<le> 3 \<and> (3 :: int) \<le> 25 \<and>
   caesarEncrypt (str ''HELLO, WORLD'') 3 = str ''KHOOR, ZRUOG'' \<and>
   caesarEncrypt (str ''KHOOR, ZRUOG'') (26 - 3) = str ''HELLO, WORLD''"
proof -
  have e: "caesarEncrypt (str ''HELLO, WORLD'') 3 = str ''KHOOR, ZRUOG''"
    by code_simp
  from shift_inverse [of 3 "str ''HELLO, WORLD''"] e show ?thesis by simp
qed

text \<open>
  C8 (as amended). When every code unit of the text, XORed with the key's number, lies
  between 0 and 255, \<open>xorEncrypt\<close> prints one hex pair for each code unit, and reading the
  pairs back and applying the exclusive or with the same key again gives the text. That
  is so whenever the code units are at most 255 and the key's number is between 0 and 255.
\<close>

theorem xor_roundtrip_decode:
  "((\<forall>c \<in> set text. 0 \<le> jsxor (charCodeAt0 c) (xorKeyNum key) \<and>
                      jsxor (charCodeAt0 c) (xorKeyNum key) \<le> 255) \<longrightarrow>
      xorDecode (xorEncrypt text key) key = Some text) \<and>
   ((\<forall>c \<in> set text. charCodeAt0 c \<le> 255) \<and> 0 \<le> xorKeyNum key \<and> xorKeyNum key \<le> 255 \<longrightarrow>
      xorDecode (xorEncrypt text key) key = Some text)"
proof (intro conjI impI)
  assume "\<forall>c \<in> set text. 0 \<le> jsxor (charCodeAt0 c) (xorKeyNum key) \<and>
                      jsxor (charCodeAt0 c) (xorKeyNum key) \<le> 255"
  then show "xorDecode (xorEncrypt text key) key = Some text"
    by (rule xor_roundtrip_pairs)
next
  assume a: "(\<forall>c \<in> set text. charCodeAt0 c \<le> 255) \<and> 0 \<le> xorKeyNum key \<and> xorKeyNum key \<le> 255"
  have "\<forall>c \<in> set text. 0 \<le> jsxor (charCodeAt0 c) (xorKeyNum key) \<and>
                      jsxor (charCodeAt0 c) (xorKeyNum key) \<le> 255"
  proof
    fix c assume "c \<in> set text"
    with a have "uint c \<le> 255" by (simp add: charCodeAt0_def)
    with a show "0 \<le> jsxor (charCodeAt0 c) (xorKeyNum key) \<and>
                      jsxor (charCodeAt0 c) (xorKeyNum key) \<le> 255"
      by (intro jsxor_small) simp_all
  qed
  then show "xorDecode (xorEncrypt text key) key = Some text"
    by (rule xor_roundtrip_pairs)
qed

theorem xor_roundtrip_decode_witness:
  "list_all (\<lambda>c. 0 \<le> jsxor (charCodeAt0 c) (xorKeyNum (str ''11'')) \<and>
                  jsxor (charCodeAt0 c) (xorKeyNum (str ''11'')) \<le> 255) (str ''HI'') \<and>
   xorEncrypt (str ''HI'') (str ''11'') = str ''43 42'' \<and>
   xorDecode (str ''43 42'') (str ''11'') = Some (str ''HI'')"
proof -
  have h: "\<forall>c \<in> set (str ''HI''). 0 \<le> jsxor (charCodeAt0 c) (xorKeyNum (str ''11'')) \<and>
                  jsxor (charCodeAt0 c) (xorKeyNum (str ''11'')) \<le> 255"
    by (simp add: xorKeyNum_11) (simp add: str_def chr_def jsxor_def charCodeAt0_def)
  then have l: "list_all (\<lambda>c. 0 \<le> jsxor (charCodeAt0 c) (xorKeyNum (str ''11'')) \<and>
                  jsxor (charCodeAt0 c) (xorKeyNum (str ''11'')) \<le> 255) (str ''HI'')"
    by (simp only: list_all_iff)
  have e: "xorEncrypt (str ''HI'') (str ''11'') = str ''43 42''" by code_simp
  from xor_roundtrip_decode [of "str ''HI''" "str ''11''"] h
  have "xorDecode (xorEncrypt (str ''HI'') (str ''11'')) (str ''11'') = Some (str ''HI'')"
    by blast
  then have "xorDecode (str ''43 42'') (str ''11'') = Some (str ''HI'')"
    by (simp only: e)
  with l e show ?thesis by simp
qed

text \<open>
  The claim as first stated fails: with the key \<open>256\<close> the text \<open>AB\<close> is printed as
  \<open>141 142\<close>, which is no sequence of hex pairs.
\<close>

theorem xor_roundtrip_counterexample:
  "xorEncrypt (str ''AB'') (str ''256'') = str ''141 142'' \<and>
   xorDecode (xorEncrypt (str ''AB'') (str ''256'')) (str ''256'') = None"
proof -
  have e: "xorEncrypt (str ''AB'') (str ''256'') = str ''141 142''" by code_simp
  have d: "codePointsOfHex (str ''141 142'') = None" by (simp add: str_def chr_def)
  show ?thesis by (simp add: e d xorDecode_def)
qed

text \<open>
  C9. With a message that is empty or all white space, \<open>handleTransmit\<close> changes nothing
  and does nothing, and so does a click on the button; from an idle state the effect
  then has nothing to run: no pulse, no history entry, \<open>isTransmitting\<close> still false.
\<close>

theorem blank_message_rejected:
  assumes "\<forall>c \<in> set (message s). isWhiteSpace c"
  shows "handleTransmit s = (s, []) \<and> transmitButton s = (s, []) \<and>
         (\<not> isTransmitting s \<longrightarrow>
            morseTransmission ts s = (s, []) \<and>
            runTransmission ts (fst (handleTransmit s)) = (s, []))"
proof -
  from assms have "trim (message s) = []" by (simp add: trim_blank_iff)
  then show ?thesis
    by (simp add: handleTransmit_def transmitButton_def runTransmission_idle
        morseTransmission_def)
qed

theorem blank_message_rejected_witness:
  "list_all isWhiteSpace (message (readyState\<lparr>message := str ''   ''\<rparr>)) \<and>
   \<not> isTransmitting (readyState\<lparr>message := str ''   ''\<rparr>) \<and>
   handleTransmit (readyState\<lparr>message := str ''   ''\<rparr>)
     = (readyState\<lparr>message := str ''   ''\<rparr>, []) \<and>
   runTransmission (str ''12:00:00'') (fst (handleTransmit (readyState\<lparr>message := str ''   ''\<rparr>)))
     = (readyState\<lparr>message := str ''   ''\<rparr>, [])"
proof -
  have h: "\<forall>c \<in> set (message (readyState\<lparr>message := str ''   ''\<rparr>)). isWhiteSpace c"
    by (simp add: str_def chr_def isWhiteSpace_def)
  have i: "\<not> isTransmitting (readyState\<lparr>message := str ''   ''\<rparr>)"
    by (simp add: readyState_def initialState_def)
  from h have l: "list_all isWhiteSpace (message (readyState\<lparr>message := str ''   ''\<rparr>))"
    by (simp only: list_all_iff)
  from blank_message_rejected [OF h, of "str ''12:00:00''"] l i show ?thesis
    by blast
qed

text \<open>
  C10. A key that parses to 0, the key \<open>0\<close> itself among them, gives the output of the
  default key 11: \<open>parseInt(key, 10) || 11\<close> takes 0 for a missing number.
\<close>

theorem xorEncrypt_key_zero:
  "xorEncrypt text (str ''0'') = xorEncrypt text (str ''11'') \<and>
   (parseInt10 key = Some 0 \<longrightarrow> xorEncrypt text key = xorEncrypt text (str ''11''))"
proof -
  have same: "xorKeyNum k = xorKeyNum (str ''11'')" if "parseInt10 k = Some 0" for k
    using that by (simp add: xorKeyNum_zero xorKeyNum_11)
  have "xorKeyNum (str ''0'') = xorKeyNum (str ''11'')"
    using parseInt10_0 by (rule same)
  then have 1: "xorEncrypt text (str ''0'') = xorEncrypt text (str ''11'')"
    by (simp add: xorEncrypt_def)
  have 2: "parseInt10 key = Some 0 \<longrightarrow> xorEncrypt text key = xorEncrypt text (str ''11'')"
    using same [of key] by (simp add: xorEncrypt_def)
  from 1 2 show ?thesis by simp
qed

theorem xorEncrypt_key_zero_witness:
  "parseInt10 (str '' -00x'') = Some 0 \<and>
   xorEncrypt (str ''AB'') (str '' -00x'') = xorEncrypt (str ''AB'') (str ''11'') \<and>
   xorEncrypt (str ''AB'') (str ''0'') = str ''4A 49''"
proof -
  have h: "parseInt10 (str '' -00x'') = Some 0" by code_simp
  have v: "xorEncrypt (str ''AB'') (str ''11'') = str ''4A 49''" by code_simp
  from xorEncrypt_key_zero [of "str ''AB''" "str '' -00x''"] h v show ?thesis by simp
qed

end
